theory Spec2Isabelle
  imports Main "HOL-Library.Multiset"
begin

section \<open>The workflow "Build Docker Image"\<close>

text \<open>
  The repository's pipeline is one GitHub Actions workflow with two jobs.  The job
  \<open>detect-changes\<close> runs a shell step that lists the files changed by the push and
  writes a JSON matrix of the watched service directories that were touched; the job
  \<open>build-and-push\<close> is instantiated once per matrix entry and builds, tags and
  pushes the image of that service.  Shell text is modelled on \<open>string\<close> (byte lists),
  every exit status as a value, every file system, cache or registry as explicit state.
\<close>

subsection \<open>Shell and expression helpers\<close>

definition newline :: char where
  "newline = CHR 0x0A"

text \<open>A string begins with the given literal text.\<close>

fun starts_with :: "string \<Rightarrow> string \<Rightarrow> bool" where
  "starts_with [] s = True"
| "starts_with (c # cs) [] = False"
| "starts_with (c # cs) (d # ds) = (c = d \<and> starts_with cs ds)"

text \<open>
  The pieces of a text between occurrences of a separator byte.  With the separator
  \<^term>\<open>newline\<close> these are the lines that \<open>echo "$text"\<close> sends down a pipe: \<open>echo\<close>
  terminates the last piece with a newline of its own, so the empty text is one empty line.
\<close>

fun split_on :: "char \<Rightarrow> string \<Rightarrow> string list" where
  "split_on c [] = [[]]"
| "split_on c (x # xs) =
     (if x = c then [] # split_on c xs
      else (case split_on c xs of [] \<Rightarrow> [[x]] | l # ls \<Rightarrow> (x # l) # ls))"

text \<open>The elements of a list written one after the other with a separator between them.\<close>

fun join :: "string \<Rightarrow> string list \<Rightarrow> string" where
  "join sep [] = []"
| "join sep [x] = x"
| "join sep (x # y # ys) = x @ sep @ join sep (y # ys)"

fun strip_prefix :: "string \<Rightarrow> string \<Rightarrow> string option" where
  "strip_prefix [] s = Some s"
| "strip_prefix (c # cs) [] = None"
| "strip_prefix (c # cs) (d # ds) = (if c = d then strip_prefix cs ds else None)"

definition strip_suffix :: "string \<Rightarrow> string \<Rightarrow> string option" where
  "strip_suffix p s = map_option rev (strip_prefix (rev p) (rev s))"

subsection \<open>Trigger\<close>

text \<open>\<open>on: push: paths:\<close>, the path filter of the workflow.\<close>

definition push_paths :: "string list" where
  "push_paths =
     [''src/frontend/**'', ''src/cartservice/**'', ''src/checkoutservice/**'',
      ''src/currencyservice/**'', ''src/emailservice/**'', ''src/adservice/**'',
      ''src/loadgenerator/**'', ''src/paymentservice/**'',
      ''src/productcatalogservice/**'', ''src/recommendservice/**'',
      ''src/shippingservice/**'', ''src/shoppingassistantservice/**'', ''release/**'']"

text \<open>
  A filter pattern against a path: a character stands for itself and a final \<open>**\<close>
  for any rest of the path, slashes included.  Every pattern of the workflow is a
  directory followed by \<open>/**\<close>.
\<close>

fun glob_match :: "string \<Rightarrow> string \<Rightarrow> bool" where
  "glob_match [] p = (p = [])"
| "glob_match (a # pat) p =
     (if a # pat = ''**'' then True
      else (case p of [] \<Rightarrow> False | c # p' \<Rightarrow> a = c \<and> glob_match pat p'))"

text \<open>The workflow runs when at least one changed path matches at least one pattern.\<close>

definition triggered :: "string list \<Rightarrow> bool" where
  "triggered paths = list_ex (\<lambda>p. list_ex (\<lambda>pat. glob_match pat p) push_paths) paths"

subsection \<open>Job \<open>detect-changes\<close>, step \<open>set-matrix\<close>\<close>

text \<open>
  \<open>for dir in src/frontend src/cartservice ...\<close>: the watched service directories, in
  the order of the loop.
\<close>

definition watched_dirs :: "string list" where
  "watched_dirs =
     [''src/frontend'', ''src/cartservice'', ''src/checkoutservice'',
      ''src/currencyservice'', ''src/emailservice'', ''src/adservice'',
      ''src/loadgenerator'', ''src/paymentservice'', ''src/productcatalogservice'',
      ''src/recommendservice'', ''src/shippingservice'', ''src/shoppingassistantservice'']"

text \<open>
  \<open>git diff --name-only a b\<close> on two commits, each given by its tree (the paths with
  the identity of their content): the paths that are in one tree only or differ in
  content.  The command fails when a reference does not name a commit of the clone
  (\<open>github.event.before\<close> is the null commit on the first push of a branch).
\<close>

type_synonym tree = "(string \<times> nat) list"

definition git_diff_name_only :: "tree \<Rightarrow> tree \<Rightarrow> string list" where
  "git_diff_name_only a b =
     filter (\<lambda>p. map_of a p \<noteq> map_of b p) (remdups (map fst a @ map fst b))"

text \<open>
  \<open>changed=$(git diff --name-only before sha)\<close>: \<open>git\<close> prints one changed path per
  line, and the command substitution drops the final newline.  The changed paths of the
  model are these lines as printed (\<open>git\<close> prints a path with unusual bytes in quotes
  and escaped, so a line never holds a newline of the path itself).
\<close>

definition git_output :: "string list \<Rightarrow> string" where
  "git_output paths = join [newline] paths"

text \<open>
  \<open>echo "$changed" | grep -q "^$dir/"\<close>: exit status 0 exactly when some line of the
  text matches.  The pattern is \<open>^\<close> followed by the text \<open>lit\<close>; the function models
  patterns whose text has no character that is special in a basic regular expression,
  which is the case for every watched directory (lemma \<open>watched_dirs_literal\<close>).
\<close>

definition grep_q :: "string \<Rightarrow> string \<Rightarrow> bool" where
  "grep_q lit input = list_ex (starts_with lit) (split_on newline input)"

text \<open>The characters of the watched directories: lower-case letters and the slash.\<close>

definition plain_char :: "char \<Rightarrow> bool" where
  "plain_char c = (c = CHR ''/'' \<or> ((97::nat) \<le> of_char c \<and> of_char c \<le> (122::nat)))"

definition service_json :: "string \<Rightarrow> string" where
  \<open>service_json dir = ''{"service":"'' @ dir @ ''"}''\<close>

text \<open>The \<open>for\<close> loop: \<open>services\<close> is the array built so far, appended to at its end.\<close>

fun detect_loop :: "string \<Rightarrow> string list \<Rightarrow> string list \<Rightarrow> string list" where
  "detect_loop changed [] services = services"
| "detect_loop changed (dir # dirs) services =
     detect_loop changed dirs
       (if grep_q (dir @ ''/'') changed then services @ [service_json dir] else services)"

text \<open>
  \<open>matrix="{\"include\":["\<close>, then the array joined with commas when it is not empty,
  then \<open>"]}"\<close>.
\<close>

definition matrix_json :: "string list \<Rightarrow> string" where
  \<open>matrix_json services =
     ''{"include":['' @ (if length services > 0 then join '','' services else []) @ '']}''\<close>

text \<open>The value written to the job output \<open>services\<close>.\<close>

definition set_matrix :: "string \<Rightarrow> string" where
  "set_matrix changed = matrix_json (detect_loop changed watched_dirs [])"

subsection \<open>Job \<open>build-and-push\<close>: condition and matrix\<close>

text \<open>
  String comparison in a workflow expression ignores case; \<open>!=\<close> is its negation.
\<close>

definition to_lower :: "char \<Rightarrow> char" where
  "to_lower c =
     (if (65::nat) \<le> of_char c \<and> of_char c \<le> (90::nat)
      then char_of (of_char c + (32::nat)) else c)"

definition expr_eq :: "string \<Rightarrow> string \<Rightarrow> bool" where
  "expr_eq a b = (map to_lower a = map to_lower b)"

text \<open>\<open>if: needs.detect-changes.outputs.services != '{"include":[]}'\<close>\<close>

definition build_job_condition :: "string \<Rightarrow> bool" where
  \<open>build_job_condition services = (\<not> expr_eq services ''{"include":[]}'')\<close>

text \<open>
  \<open>fromJson\<close> on the shape of text that \<open>set-matrix\<close> writes: an object whose
  \<open>include\<close> array holds objects with the single member \<open>service\<close>.  The result
  is the list of the \<open>matrix.service\<close> values, one per instance of the job;
  any other text is rejected.
\<close>

definition parse_entry :: "string \<Rightarrow> string option" where
  \<open>parse_entry e =
     (case strip_prefix ''{"service":"'' e of
        None \<Rightarrow> None
      | Some r \<Rightarrow> strip_suffix ''"}'' r)\<close>

definition fromJson_include :: "string \<Rightarrow> string list option" where
  \<open>fromJson_include s =
     (case strip_prefix ''{"include":['' s of
        None \<Rightarrow> None
      | Some r \<Rightarrow>
          (case strip_suffix '']}'' r of
             None \<Rightarrow> None
           | Some body \<Rightarrow>
               if body = [] then Some []
               else those (map parse_entry (split_on CHR '','' body))))\<close>

text \<open>The matrix of the build job for a list of changed paths.\<close>

definition build_matrix :: "string list \<Rightarrow> string list option" where
  "build_matrix paths = fromJson_include (set_matrix (git_output paths))"

text \<open>
  The script of the step as a whole: the job output \<open>services\<close>, or nothing when
  \<open>git diff\<close> fails (the script runs under \<open>bash -e\<close>, so the step fails with it).
\<close>

definition detect_changes :: "(string \<rightharpoonup> tree) \<Rightarrow> string \<Rightarrow> string \<Rightarrow> string option" where
  "detect_changes commits before sha =
     (case commits before of
        None \<Rightarrow> None
      | Some a \<Rightarrow>
          (case commits sha of
             None \<Rightarrow> None
           | Some b \<Rightarrow> Some (set_matrix (git_output (git_diff_name_only a b)))))"

subsection \<open>Job \<open>build-and-push\<close>: one instance\<close>

datatype step = Checkout | SetupBuildx | CacheLayers | Login | BuildAndPush

datatype failure = LoginFailed | DockerfileNotFound string | BuildFailed string

text \<open>
  What an instance of the job reads of its surroundings: the regular files of the
  checkout, the two secrets and the answer of the registry to a login with them, the
  commits of the event, the runner's operating system, and the behaviour of
  \<open>docker buildx build --push\<close>: the digest of the image when the command exits with
  status 0 for a Dockerfile and a context, and the layer cache it exports for a context
  and the cache it imported.
\<close>

record env =
  files :: "string set"
  docker_username :: string
  cicd_dockerhub :: string
  hub_accepts :: "string \<Rightarrow> string \<Rightarrow> bool"
  github_sha :: string
  event_before :: string
  runner_os :: string
  docker_build :: "string \<Rightarrow> string \<Rightarrow> nat option"
  cache_export :: "string \<Rightarrow> nat option \<Rightarrow> nat"

text \<open>
  What outlives an instance: the registry, a map from image references to digests, and
  the entries of the cache service, key and content, the newest first.
\<close>

record world =
  images :: "string \<rightharpoonup> nat"
  caches :: "(string \<times> nat) list"

text \<open>
  The state of a running instance: the directories of its runner that hold a layer
  cache, the key of the cache entry that was restored, and the world.
\<close>

record job_state =
  cache_dirs :: "string \<rightharpoonup> nat"
  restored :: "string option"
  world :: world

text \<open>Step \<open>Cache Docker layers\<close> (\<open>actions/cache\<close>): \<open>path\<close>, \<open>key\<close>, \<open>restore-keys\<close>.\<close>

definition cache_path :: string where
  "cache_path = ''/tmp/.buildx-cache''"

definition cache_key :: "env \<Rightarrow> string \<Rightarrow> string" where
  "cache_key env service = runner_os env @ ''-buildx-'' @ service @ ''-'' @ github_sha env"

definition cache_restore_keys :: "env \<Rightarrow> string \<Rightarrow> string list" where
  "cache_restore_keys env service = [runner_os env @ ''-buildx-'' @ service @ ''-'']"

fun restore_by_prefix :: "(string \<times> nat) list \<Rightarrow> string list \<Rightarrow> (string \<times> nat) option" where
  "restore_by_prefix store [] = None"
| "restore_by_prefix store (rk # rks) =
     (case find (\<lambda>e. starts_with rk (fst e)) store of
        Some e \<Rightarrow> Some e
      | None \<Rightarrow> restore_by_prefix store rks)"

text \<open>
  The entry with the exact key, else the newest entry whose key begins with a restore
  key, the restore keys tried in order.
\<close>

definition restore_cache ::
  "(string \<times> nat) list \<Rightarrow> string \<Rightarrow> string list \<Rightarrow> (string \<times> nat) option" where
  "restore_cache store key restore_keys =
     (case find (\<lambda>e. fst e = key) store of
        Some e \<Rightarrow> Some e
      | None \<Rightarrow> restore_by_prefix store restore_keys)"

definition cache_layers :: "env \<Rightarrow> string \<Rightarrow> job_state \<Rightarrow> job_state" where
  "cache_layers env service st =
     (case restore_cache (caches (world st)) (cache_key env service)
             (cache_restore_keys env service) of
        None \<Rightarrow> st
      | Some (k, c) \<Rightarrow> st\<lparr>cache_dirs := (cache_dirs st)(cache_path \<mapsto> c), restored := Some k\<rparr>)"

text \<open>
  The post step of \<open>actions/cache\<close>, run when the job has succeeded: nothing is saved
  after a hit on the exact key or when \<open>path\<close> does not exist; otherwise the content of
  \<open>path\<close> is saved under \<open>key\<close>.
\<close>

definition save_cache :: "env \<Rightarrow> string \<Rightarrow> job_state \<Rightarrow> (string \<times> nat) list" where
  "save_cache env service st =
     (if restored st = Some (cache_key env service) then caches (world st)
      else (case cache_dirs st cache_path of
              None \<Rightarrow> caches (world st)
            | Some c \<Rightarrow> (cache_key env service, c) # caches (world st)))"

text \<open>
  Step \<open>Log in to DockerHub\<close> (\<open>docker/login-action\<close>): a missing secret is the
  empty string, and the action fails without both values.
\<close>

definition login :: "env \<Rightarrow> bool" where
  "login env =
     (docker_username env \<noteq> [] \<and> cicd_dockerhub env \<noteq> [] \<and>
      hub_accepts env (docker_username env) (cicd_dockerhub env))"

text \<open>
  \<open>NAME=$(basename $SERVICE)\<close>: trailing slashes are dropped, then everything up to
  the last slash; a text of slashes only gives \<open>/\<close>.  The variable is not quoted; a
  matrix entry is a watched directory and has no blank or wildcard to split or expand.
\<close>

definition basename :: "string \<Rightarrow> string" where
  "basename p =
     (let s = rev (dropWhile (\<lambda>c. c = CHR ''/'') (rev p))
      in if s = [] then (if p = [] then [] else ''/'')
         else rev (takeWhile (\<lambda>c. c \<noteq> CHR ''/'') (rev s)))"

text \<open>
  \<open>IMAGE_LATEST=$DOCKER_USER/$NAME:latest\<close> and
  \<open>IMAGE_SHA=$DOCKER_USER/$NAME:${GITHUB_SHA::7}\<close>, with \<open>DOCKER_USER\<close> the secret
  \<open>DOCKER_USERNAME\<close>.
\<close>

definition image_latest :: "env \<Rightarrow> string \<Rightarrow> string" where
  "image_latest env service = docker_username env @ ''/'' @ basename service @ '':latest''"

definition image_sha :: "env \<Rightarrow> string \<Rightarrow> string" where
  "image_sha env service =
     docker_username env @ ''/'' @ basename service @ '':'' @ take 7 (github_sha env)"

text \<open>The \<open>-t\<close> options of the build command, in their order.\<close>

definition image_tags :: "env \<Rightarrow> string \<Rightarrow> string list" where
  "image_tags env service = [image_latest env service, image_sha env service]"

text \<open>
  The Dockerfile and the build context: \<open>[ ! -f "$DOCKERFILE_PATH" ]\<close> twice, first to
  fall back to the nested \<open>src\<close> folder, then to give up with \<open>exit 1\<close>.
\<close>

definition resolve_dockerfile :: "string set \<Rightarrow> string \<Rightarrow> failure + (string \<times> string)" where
  "resolve_dockerfile fs service =
     (let dockerfile_path = service @ ''/Dockerfile'';
          context_path = service;
          (dockerfile_path, context_path) =
            (if dockerfile_path \<notin> fs
             then (service @ ''/src/Dockerfile'', service @ ''/src'')
             else (dockerfile_path, context_path))
      in if dockerfile_path \<notin> fs then Inl (DockerfileNotFound service)
         else Inr (dockerfile_path, context_path))"

text \<open>\<open>--cache-from=type=local,src=...\<close> and \<open>--cache-to=type=local,dest=...\<close>\<close>

definition cache_from :: string where
  "cache_from = ''/tmp/.buildx-cache''"

definition cache_to :: string where
  "cache_to = ''/tmp/.buildx-cache-new''"

text \<open>
  \<open>--push\<close>: the registry stores the manifest under each tag; a tag that exists is
  moved to the new digest.  The command makes no request about the tags before.
\<close>

definition push_tags :: "(string \<rightharpoonup> nat) \<Rightarrow> string list \<Rightarrow> nat \<Rightarrow> (string \<rightharpoonup> nat)" where
  "push_tags reg tags digest = fold (\<lambda>t m. m(t \<mapsto> digest)) tags reg"

text \<open>
  Step \<open>Build and Push Docker Image\<close>.  A build command that fails is taken to leave
  the registry and the cache directories as they were.
\<close>

definition build_and_push :: "env \<Rightarrow> string \<Rightarrow> job_state \<Rightarrow> failure + job_state" where
  "build_and_push env service st =
     (case resolve_dockerfile (files env) service of
        Inl e \<Rightarrow> Inl e
      | Inr (dockerfile_path, context_path) \<Rightarrow>
          (case docker_build env dockerfile_path context_path of
             None \<Rightarrow> Inl (BuildFailed service)
           | Some digest \<Rightarrow>
               Inr (st\<lparr>cache_dirs := (cache_dirs st)(cache_to \<mapsto>
                              cache_export env context_path (cache_dirs st cache_from)),
                        world := (world st)\<lparr>images :=
                              push_tags (images (world st)) (image_tags env service) digest\<rparr>\<rparr>)))"

text \<open>The steps of the job in their order; checkout and Buildx setup are taken to succeed.\<close>

definition job_steps :: "step list" where
  "job_steps = [Checkout, SetupBuildx, CacheLayers, Login, BuildAndPush]"

fun run_step :: "env \<Rightarrow> string \<Rightarrow> step \<Rightarrow> job_state \<Rightarrow> failure + job_state" where
  "run_step env service Checkout st = Inr st"
| "run_step env service SetupBuildx st = Inr st"
| "run_step env service CacheLayers st = Inr (cache_layers env service st)"
| "run_step env service Login st = (if login env then Inr st else Inl LoginFailed)"
| "run_step env service BuildAndPush st = build_and_push env service st"

text \<open>A step runs only when every step before it has succeeded.\<close>

fun run_steps ::
  "env \<Rightarrow> string \<Rightarrow> step list \<Rightarrow> job_state \<Rightarrow> step list \<Rightarrow> failure option \<times> step list \<times> job_state" where
  "run_steps env service [] st sofar = (None, sofar, st)"
| "run_steps env service (s # ss) st sofar =
     (case run_step env service s st of
        Inl e \<Rightarrow> (Some e, sofar @ [s], st)
      | Inr st' \<Rightarrow> run_steps env service ss st' (sofar @ [s]))"

datatype outcome = Pushed | Failed failure | Cancelled

record unit_result =
  outcome :: outcome
  steps_run :: "step list"
  final_dirs :: "string \<rightharpoonup> nat"

definition run_unit :: "env \<Rightarrow> string \<Rightarrow> world \<Rightarrow> unit_result \<times> world" where
  "run_unit env service w =
     (case run_steps env service job_steps \<lparr>cache_dirs = Map.empty, restored = None, world = w\<rparr> [] of
        (Some e, sofar, st) \<Rightarrow>
          (\<lparr>outcome = Failed e, steps_run = sofar, final_dirs = cache_dirs st\<rparr>, world st)
      | (None, sofar, st) \<Rightarrow>
          (\<lparr>outcome = Pushed, steps_run = sofar, final_dirs = cache_dirs st\<rparr>,
           (world st)\<lparr>caches := save_cache env service st\<rparr>))"

subsection \<open>Job \<open>build-and-push\<close>: the matrix of instances\<close>

text \<open>
  \<open>strategy:\<close> has the key \<open>matrix\<close> only.  \<open>fail-fast\<close> is not written, and its
  default is true: when an instance fails, the instances that have not finished are
  cancelled.
\<close>

record strategy =
  fail_fast :: "bool option"

definition build_strategy :: strategy where
  "build_strategy = \<lparr>fail_fast = None\<rparr>"

definition fail_fast_enabled :: "strategy \<Rightarrow> bool" where
  "fail_fast_enabled s = (case fail_fast s of None \<Rightarrow> True | Some b \<Rightarrow> b)"

text \<open>A cancelled instance is recorded with no step and has no effect on the world.\<close>

definition cancelled :: unit_result where
  "cancelled = \<lparr>outcome = Cancelled, steps_run = [], final_dirs = Map.empty\<rparr>"

text \<open>
  The instances run in parallel on runners of their own and share the world only.
  The list gives them in the order in which they finish; each is taken to act on the
  world at once.
\<close>

fun fan_out ::
  "bool \<Rightarrow> env \<Rightarrow> string list \<Rightarrow> world \<Rightarrow> (string \<times> unit_result) list \<times> world" where
  "fan_out ff env [] w = ([], w)"
| "fan_out ff env (s # ss) w =
     (case run_unit env s w of
        (r, w') \<Rightarrow>
          if ff \<and> outcome r \<noteq> Pushed then ((s, r) # map (\<lambda>t. (t, cancelled)) ss, w')
          else (case fan_out ff env ss w' of (rs, w'') \<Rightarrow> ((s, r) # rs, w'')))"

datatype conclusion = Success | Failure

record run_result =
  conclusion :: conclusion
  units :: "(string \<times> unit_result) list"

text \<open>
  The conclusion of a run whose build job was started: success when every instance
  succeeded, failure otherwise.  There is no other conclusion for a run of which some
  instances succeeded and some did not.
\<close>

definition run_conclusion :: "(string \<times> unit_result) list \<Rightarrow> conclusion" where
  "run_conclusion rs =
     (if list_all (\<lambda>u. outcome (snd u) = Pushed) rs then Success else Failure)"

text \<open>
  The job for a value of the output \<open>services\<close>.  When the condition is false the job
  is skipped, and a run whose jobs succeeded or were skipped concludes with success.
  A matrix that cannot be read, or that has no entry, is an error of the run.
  \<open>order\<close> arranges the matrix in the order in which the instances finish.
\<close>

definition build_job ::
  "env \<Rightarrow> (string list \<Rightarrow> string list) \<Rightarrow> string \<Rightarrow> world \<Rightarrow> run_result \<times> world" where
  "build_job env order services w =
     (if build_job_condition services then
        (case fromJson_include services of
           None \<Rightarrow> (\<lparr>conclusion = Failure, units = []\<rparr>, w)
         | Some [] \<Rightarrow> (\<lparr>conclusion = Failure, units = []\<rparr>, w)
         | Some (m # ms) \<Rightarrow>
             (case fan_out (fail_fast_enabled build_strategy) env (order (m # ms)) w of
                (rs, w') \<Rightarrow> (\<lparr>conclusion = run_conclusion rs, units = rs\<rparr>, w')))
      else (\<lparr>conclusion = Success, units = []\<rparr>, w))"

text \<open>
  A run of the workflow for a push: \<open>build-and-push\<close> needs \<open>detect-changes\<close>, and
  is skipped when that job fails.
\<close>

definition workflow_run ::
  "env \<Rightarrow> (string list \<Rightarrow> string list) \<Rightarrow> (string \<rightharpoonup> tree) \<Rightarrow> world \<Rightarrow> run_result \<times> world" where
  "workflow_run env order commits w =
     (case detect_changes commits (event_before env) (github_sha env) of
        None \<Rightarrow> (\<lparr>conclusion = Failure, units = []\<rparr>, w)
      | Some services \<Rightarrow> build_job env order services w)"

subsection \<open>Example surroundings\<close>

text \<open>
  A checkout in which \<open>frontend\<close> has its Dockerfile at the root of the service,
  \<open>cartservice\<close> in the nested \<open>src\<close> folder, \<open>adservice\<close> at both places and the
  other services nowhere; credentials that the registry accepts; builds that succeed.
\<close>

definition example_env :: env where
  "example_env =
     \<lparr>files = {''src/frontend/Dockerfile'', ''src/cartservice/src/Dockerfile'',
               ''src/adservice/Dockerfile'', ''src/adservice/src/Dockerfile''},
      docker_username = ''kodenops'',
      cicd_dockerhub = ''token'',
      hub_accepts = (\<lambda>u p. True),
      github_sha = ''9f8e7d6c5b4a39281706f5e4d3c2b1a098765432'',
      event_before = ''1111111111111111111111111111111111111111'',
      runner_os = ''Linux'',
      docker_build = (\<lambda>df ctx. Some (length ctx)),
      cache_export = (\<lambda>ctx c. Suc (length ctx))\<rparr>"

definition empty_world :: world where
  "empty_world = \<lparr>images = Map.empty, caches = []\<rparr>"

text \<open>The outcome of an instance run on its own, with nothing in the registry or the cache.\<close>

definition unit_outcome :: "env \<Rightarrow> string \<Rightarrow> outcome" where
  "unit_outcome env service = outcome (fst (run_unit env service empty_world))"

text \<open>
  A registry in which the commit tag of \<open>frontend\<close> for the head commit of
  \<^term>\<open>example_env\<close> already names an image, with digest 999.
\<close>

definition tagged_world :: world where
  "tagged_world = \<lparr>images = [''kodenops/frontend:9f8e7d6'' \<mapsto> 999], caches = []\<rparr>"

text \<open>
  A cache service that holds the layer cache of \<open>frontend\<close> saved by the run for an
  earlier commit, with content 5.
\<close>

definition cached_world :: world where
  "cached_world =
     \<lparr>images = Map.empty,
      caches = [(''Linux-buildx-src/frontend-0a1b2c3d4e5f60718293a4b5c6d7e8f901234567'', 5)]\<rparr>"

section \<open>Properties of change detection\<close>

lemma starts_with_append: "starts_with p s \<longleftrightarrow> (\<exists>r. s = p @ r)"
  by (induction p s rule: starts_with.induct) auto

lemma split_on_nonempty: "split_on c s \<noteq> []"
  by (induction s) (auto split: list.splits)

lemma split_on_no_sep: "c \<notin> set s \<Longrightarrow> split_on c s = [s]"
  by (induction s) auto

lemma split_on_append_sep:
  "c \<notin> set s \<Longrightarrow> split_on c (s @ c # t) = s # split_on c t"
  by (induction s) auto

lemma split_on_join:
  "ps \<noteq> [] \<Longrightarrow> \<forall>p\<in>set ps. c \<notin> set p \<Longrightarrow> split_on c (join [c] ps) = ps"
proof (induction "[c]" ps rule: join.induct)
  case 1
  then show ?case by simp
next
  case (2 x)
  then show ?case by (simp add: split_on_no_sep)
next
  case (3 x y ys)
  then show ?case by (simp add: split_on_append_sep)
qed

lemma grep_q_git_output:
  assumes "lit \<noteq> []" and "\<forall>p\<in>set ps. newline \<notin> set p"
  shows "grep_q lit (git_output ps) \<longleftrightarrow> (\<exists>p\<in>set ps. starts_with lit p)"
proof (cases ps)
  case Nil
  with assms(1) show ?thesis
    by (cases lit) (simp_all add: grep_q_def git_output_def)
next
  case (Cons a list)
  with assms(2) have "split_on newline (git_output ps) = ps"
    unfolding git_output_def by (intro split_on_join) auto
  then show ?thesis
    by (simp add: grep_q_def list_ex_iff)
qed

lemma detect_loop_filter:
  "detect_loop changed ds services =
     services @ map service_json (filter (\<lambda>dir. grep_q (dir @ ''/'') changed) ds)"
  by (induction ds arbitrary: services) auto

lemma watched_dirs_literal: "\<forall>d\<in>set watched_dirs. \<forall>c\<in>set d. plain_char c"
  by (simp add: watched_dirs_def plain_char_def)

lemma plain_char_not_comma: "plain_char c \<Longrightarrow> c \<noteq> CHR '',''"
  by (auto simp add: plain_char_def)

lemma strip_prefix_append: "strip_prefix p (p @ s) = Some s"
  by (induction p) auto

lemma strip_suffix_append: "strip_suffix p (s @ p) = Some s"
  by (simp add: strip_suffix_def strip_prefix_append)

lemma parse_entry_service_json: "parse_entry (service_json d) = Some d"
proof -
  have \<open>strip_prefix ''{"service":"'' (service_json d) = Some (d @ ''"}'')\<close>
    unfolding service_json_def by (rule strip_prefix_append)
  then show ?thesis
    by (simp add: parse_entry_def strip_suffix_append)
qed

lemma those_map_parse: "those (map parse_entry (map service_json ds)) = Some ds"
  by (induction ds) (simp_all add: parse_entry_service_json)

lemma service_json_no_comma: "CHR '','' \<notin> set d \<Longrightarrow> CHR '','' \<notin> set (service_json d)"
  by (simp add: service_json_def)

lemma service_json_nonempty: "service_json d \<noteq> []"
  by (simp add: service_json_def)

lemma join_nonempty: "x \<noteq> [] \<Longrightarrow> join sep (x # xs) \<noteq> []"
  by (cases xs) auto

lemma fromJson_matrix_json:
  assumes "\<forall>d\<in>set ds. CHR '','' \<notin> set d"
  shows "fromJson_include (matrix_json (map service_json ds)) = Some ds"
proof (cases "ds = []")
  case True
  have \<open>strip_prefix ''{"include":['' (''{"include":['' @ '']}'') = Some '']}''\<close>
    by (rule strip_prefix_append)
  then show ?thesis using True
    by (simp add: fromJson_include_def matrix_json_def strip_suffix_def)
next
  case False
  define body where "body = join '','' (map service_json ds)"
  have ne: "body \<noteq> []"
    using False unfolding body_def by (cases ds) (simp_all add: join_nonempty service_json_nonempty)
  have m: \<open>matrix_json (map service_json ds) = ''{"include":['' @ (body @ '']}'')\<close>
    using False by (simp add: matrix_json_def body_def)
  have p: \<open>strip_prefix ''{"include":['' (''{"include":['' @ (body @ '']}'')) = Some (body @ '']}'')\<close>
    by (rule strip_prefix_append)
  have s: "strip_suffix '']}'' (body @ '']}'') = Some body"
    by (rule strip_suffix_append)
  have sp: "split_on CHR '','' body = map service_json ds"
    unfolding body_def using assms False
    by (intro split_on_join) (auto simp add: service_json_no_comma)
  show ?thesis
    unfolding fromJson_include_def m p
    using those_map_parse [of ds] by (simp add: s sp ne del: map_map)
qed

lemma build_matrix_filter:
  assumes "\<forall>p\<in>set ps. newline \<notin> set p"
  shows "build_matrix ps =
           Some (filter (\<lambda>d. \<exists>p\<in>set ps. starts_with (d @ ''/'') p) watched_dirs)"
proof -
  have g: "grep_q (d @ ''/'') (git_output ps) \<longleftrightarrow> (\<exists>p\<in>set ps. starts_with (d @ ''/'') p)" for d
    using assms by (intro grep_q_git_output) auto
  have "\<forall>d\<in>set watched_dirs. CHR '','' \<notin> set d"
    using watched_dirs_literal plain_char_not_comma by blast
  then have "\<forall>d\<in>set (filter (\<lambda>d. \<exists>p\<in>set ps. starts_with (d @ ''/'') p) watched_dirs). CHR '','' \<notin> set d"
    by simp
  then show ?thesis
    by (simp add: build_matrix_def set_matrix_def detect_loop_filter g fromJson_matrix_json)
qed

section \<open>Properties of the condition of the build job\<close>

lemma expr_eq_refl: "expr_eq s s"
  by (simp add: expr_eq_def)

lemma expr_eq_length: "expr_eq a b \<Longrightarrow> length a = length b"
  unfolding expr_eq_def by (rule map_eq_imp_length_eq)

lemma matrix_json_Nil: \<open>matrix_json [] = ''{"include":[]}''\<close>
  by (simp add: matrix_json_def)

lemma condition_empty: "\<not> build_job_condition (matrix_json [])"
  by (simp add: build_job_condition_def matrix_json_Nil expr_eq_refl)

lemma length_join: "length x \<le> length (join sep (x # xs))"
  by (cases xs) auto

lemma condition_nonempty:
  assumes "ds \<noteq> []"
  shows "build_job_condition (matrix_json (map service_json ds))"
proof -
  from assms obtain d ds' where d: "ds = d # ds'" by (cases ds) auto
  have "14 \<le> length (service_json d)" by (simp add: service_json_def)
  also have "\<dots> \<le> length (join '','' (map service_json ds))"
    unfolding d list.map by (rule length_join)
  finally have "14 < length (matrix_json (map service_json ds))"
    using assms by (auto simp add: matrix_json_def)
  then have \<open>\<not> expr_eq (matrix_json (map service_json ds)) ''{"include":[]}''\<close>
    using expr_eq_length by fastforce
  then show ?thesis by (simp add: build_job_condition_def)
qed

lemma those_not_Nil: "xs \<noteq> [] \<Longrightarrow> those xs \<noteq> Some []"
  by (cases xs) (auto split: option.splits)

lemma fromJson_not_Nil:
  assumes "ds \<noteq> []"
  shows "fromJson_include (matrix_json (map service_json ds)) \<noteq> Some []"
proof -
  define body where "body = join '','' (map service_json ds)"
  have ne: "body \<noteq> []"
    using assms unfolding body_def by (cases ds) (simp_all add: join_nonempty service_json_nonempty)
  have m: \<open>matrix_json (map service_json ds) = ''{"include":['' @ (body @ '']}'')\<close>
    using assms by (simp add: matrix_json_def body_def)
  have p: \<open>strip_prefix ''{"include":['' (''{"include":['' @ (body @ '']}'')) = Some (body @ '']}'')\<close>
    by (rule strip_prefix_append)
  have s: "strip_suffix '']}'' (body @ '']}'') = Some body"
    by (rule strip_suffix_append)
  have "those (map parse_entry (split_on CHR '','' body)) \<noteq> Some []"
    by (intro those_not_Nil) (simp add: split_on_nonempty)
  then show ?thesis
    unfolding fromJson_include_def m p by (simp add: s ne)
qed

lemma set_matrix_services:
  "set_matrix changed =
     matrix_json (map service_json (filter (\<lambda>dir. grep_q (dir @ ''/'') changed) watched_dirs))"
  by (simp add: set_matrix_def detect_loop_filter)

lemma build_job_skipped:
  assumes "build_matrix ps = Some []"
  shows "build_job env order (set_matrix (git_output ps)) w =
           (\<lparr>conclusion = Success, units = []\<rparr>, w)"
proof -
  let ?ds = "filter (\<lambda>dir. grep_q (dir @ ''/'') (git_output ps)) watched_dirs"
  have "?ds = []"
  proof (rule ccontr)
    assume "?ds \<noteq> []"
    then have "fromJson_include (matrix_json (map service_json ?ds)) \<noteq> Some []"
      by (rule fromJson_not_Nil)
    with assms show False
      by (simp add: build_matrix_def set_matrix_services)
  qed
  then have "set_matrix (git_output ps) = matrix_json []"
    by (simp add: set_matrix_services)
  then show ?thesis
    using condition_empty by (simp add: build_job_def)
qed

lemma git_diff_same: "git_diff_name_only t t = []"
  by (simp add: git_diff_name_only_def)

lemma build_matrix_Nil: "build_matrix [] = Some []"
  using build_matrix_filter [of "[]"] by simp

lemma glob_release: "glob_match ''release/**'' (''release/'' @ r)"
  by simp

lemma watched_not_release:
  "d \<in> set watched_dirs \<Longrightarrow> \<not> starts_with (d @ ''/'') (''release/'' @ r)"
  by (auto simp add: watched_dirs_def)

section \<open>Properties of one instance of the build job\<close>

lemma world_cache_layers: "world (cache_layers env s st) = world st"
  by (simp add: cache_layers_def split: option.splits prod.splits)

lemma run_unit_unfold:
  "run_unit env s w =
     (let st = cache_layers env s \<lparr>cache_dirs = Map.empty, restored = None, world = w\<rparr>
      in if \<not> login env
         then (\<lparr>outcome = Failed LoginFailed,
                steps_run = [Checkout, SetupBuildx, CacheLayers, Login],
                final_dirs = cache_dirs st\<rparr>, w)
         else (case build_and_push env s st of
                 Inl e \<Rightarrow>
                   (\<lparr>outcome = Failed e, steps_run = job_steps, final_dirs = cache_dirs st\<rparr>, w)
               | Inr st' \<Rightarrow>
                   (\<lparr>outcome = Pushed, steps_run = job_steps, final_dirs = cache_dirs st'\<rparr>,
                    (world st')\<lparr>caches := save_cache env s st'\<rparr>)))"
  by (simp add: run_unit_def job_steps_def Let_def world_cache_layers split: sum.splits)

lemma basename_last_segment:
  assumes "n \<noteq> []" and "CHR ''/'' \<notin> set n"
  shows "basename (d @ ''/'' @ n) = n"
proof -
  from assms obtain c cs where r: "rev n = c # cs" and c: "c \<noteq> CHR ''/''"
  proof (cases "rev n")
    case Nil
    with assms(1) show ?thesis by simp
  next
    case (Cons c cs)
    then have "c \<in> set (rev n)" by simp
    with assms(2) have "c \<noteq> CHR ''/''" by auto
    with Cons that show ?thesis by blast
  qed
  have dw: "dropWhile (\<lambda>c. c = CHR ''/'') (rev (d @ ''/'' @ n)) = rev (d @ ''/'' @ n)"
    using r c by simp
  have "takeWhile (\<lambda>c. c \<noteq> CHR ''/'') (rev n @ CHR ''/'' # rev d) =
               rev n @ takeWhile (\<lambda>c. c \<noteq> CHR ''/'') (CHR ''/'' # rev d)"
    by (rule takeWhile_append2) (use assms(2) in auto)
  then have tw: "takeWhile (\<lambda>c. c \<noteq> CHR ''/'') (rev (d @ ''/'' @ n)) = rev n"
    by simp
  show ?thesis
    unfolding basename_def Let_def dw using tw assms(1) by simp
qed

lemma pushed_images:
  assumes "outcome (fst (run_unit env service w)) = Pushed"
  shows "\<exists>digest. images (snd (run_unit env service w)) =
           (images w)(image_latest env service \<mapsto> digest, image_sha env service \<mapsto> digest)"
proof (cases "login env")
  case False
  with assms show ?thesis by (simp add: run_unit_unfold Let_def)
next
  case True
  show ?thesis
  proof (cases "resolve_dockerfile (files env) service")
    case (Inl e)
    with assms True show ?thesis
      by (simp add: run_unit_unfold Let_def build_and_push_def)
  next
    case (Inr dc)
    obtain df ctx where dc: "dc = (df, ctx)" by (cases dc)
    show ?thesis
    proof (cases "docker_build env df ctx")
      case None
      with assms True Inr dc show ?thesis
        by (simp add: run_unit_unfold Let_def build_and_push_def)
    next
      case (Some digest)
      with True Inr dc have "images (snd (run_unit env service w)) =
           (images w)(image_latest env service \<mapsto> digest, image_sha env service \<mapsto> digest)"
        by (simp add: run_unit_unfold Let_def build_and_push_def push_tags_def image_tags_def
            world_cache_layers)
      then show ?thesis by blast
    qed
  qed
qed


lemma outcome_run_unit:
  "outcome (fst (run_unit env s w)) =
     (if \<not> login env then Failed LoginFailed
      else (case resolve_dockerfile (files env) s of
              Inl e \<Rightarrow> Failed e
            | Inr (df, ctx) \<Rightarrow>
                (case docker_build env df ctx of
                   None \<Rightarrow> Failed (BuildFailed s)
                 | Some digest \<Rightarrow> Pushed)))"
  by (simp add: run_unit_unfold Let_def build_and_push_def
      split: sum.splits option.splits prod.splits)

lemma outcome_unit_outcome: "outcome (fst (run_unit env s w)) = unit_outcome env s"
  by (simp add: unit_outcome_def outcome_run_unit)


lemma login_failed_unit:
  assumes "\<not> login env"
  shows "run_unit env s w =
           (\<lparr>outcome = Failed LoginFailed,
             steps_run = [Checkout, SetupBuildx, CacheLayers, Login],
             final_dirs = cache_dirs (cache_layers env s
                            \<lparr>cache_dirs = Map.empty, restored = None, world = w\<rparr>)\<rparr>, w)"
  using assms by (simp add: run_unit_unfold Let_def)

lemma pushed_unit:
  assumes "login env" and "resolve_dockerfile (files env) s = Inr (df, ctx)"
    and "docker_build env df ctx = Some digest"
  shows "run_unit env s w =
     (let st = cache_layers env s \<lparr>cache_dirs = Map.empty, restored = None, world = w\<rparr>;
          st' = st\<lparr>cache_dirs := (cache_dirs st)(cache_to \<mapsto>
                      cache_export env ctx (cache_dirs st cache_from)),
                   world := w\<lparr>images := (images w)(image_latest env s \<mapsto> digest,
                                                   image_sha env s \<mapsto> digest)\<rparr>\<rparr>
      in (\<lparr>outcome = Pushed, steps_run = job_steps, final_dirs = cache_dirs st'\<rparr>,
          (world st')\<lparr>caches := save_cache env s st'\<rparr>))"
  using assms
  by (simp add: run_unit_unfold Let_def build_and_push_def push_tags_def image_tags_def
      world_cache_layers)

lemma read_cache_kept:
  "final_dirs (fst (run_unit env s w)) cache_from =
     map_option snd (restore_cache (caches w) (cache_key env s) (cache_restore_keys env s))"
  by (simp add: run_unit_unfold Let_def build_and_push_def cache_layers_def cache_from_def
      cache_to_def cache_path_def split: sum.splits option.splits prod.splits)

section \<open>Properties of the matrix of instances\<close>

lemma fan_out_Cons:
  "fan_out ff env (s # ss) w =
     (if ff \<and> unit_outcome env s \<noteq> Pushed
      then ((s, fst (run_unit env s w)) # map (\<lambda>t. (t, cancelled)) ss, snd (run_unit env s w))
      else ((s, fst (run_unit env s w)) # fst (fan_out ff env ss (snd (run_unit env s w))),
            snd (fan_out ff env ss (snd (run_unit env s w)))))"
proof -
  obtain r w' where rw: "run_unit env s w = (r, w')"
    by (cases "run_unit env s w")
  then have "outcome r = unit_outcome env s"
    using outcome_unit_outcome [of env s w] by simp
  with rw show ?thesis
    by (simp split: prod.splits)
qed

declare fan_out.simps(2) [simp del]





lemma fail_fast_default: "fail_fast_enabled build_strategy"
  by (simp add: fail_fast_enabled_def build_strategy_def)

lemma build_job_started:
  assumes "\<forall>p\<in>set ps. newline \<notin> set p"
    and "filter (\<lambda>d. \<exists>p\<in>set ps. starts_with (d @ ''/'') p) watched_dirs = m # ms"
  shows "build_job env order (set_matrix (git_output ps)) w =
           (\<lparr>conclusion = run_conclusion (fst (fan_out True env (order (m # ms)) w)),
             units = fst (fan_out True env (order (m # ms)) w)\<rparr>,
            snd (fan_out True env (order (m # ms)) w))"
proof -
  let ?ds = "filter (\<lambda>dir. grep_q (dir @ ''/'') (git_output ps)) watched_dirs"
  have g: "grep_q (d @ ''/'') (git_output ps) \<longleftrightarrow> (\<exists>p\<in>set ps. starts_with (d @ ''/'') p)" for d
    using assms(1) by (intro grep_q_git_output) auto
  then have ds: "?ds = m # ms" using assms(2) by simp
  then have c: "build_job_condition (set_matrix (git_output ps))"
    unfolding set_matrix_services by (intro condition_nonempty) simp
  have "build_matrix ps = Some (m # ms)"
    using assms by (simp add: build_matrix_filter)
  then have "fromJson_include (set_matrix (git_output ps)) = Some (m # ms)"
    by (simp add: build_matrix_def)
  with c show ?thesis
    by (simp add: build_job_def fail_fast_default split: prod.splits)
qed

lemma login_failed_fan_out:
  assumes "\<not> login env"
  shows "snd (fan_out ff env us w) = w \<and>
         list_all (\<lambda>u. BuildAndPush \<notin> set (steps_run (snd u))) (fst (fan_out ff env us w)) \<and>
         (us \<noteq> [] \<longrightarrow> run_conclusion (fst (fan_out ff env us w)) = Failure)"
proof (induction us)
  case Nil
  show ?case by simp
next
  case (Cons u us)
  have o: "unit_outcome env u = Failed LoginFailed"
    using assms by (simp add: unit_outcome_def login_failed_unit)
  show ?case
  proof (cases ff)
    case True
    with o show ?thesis
      by (simp add: fan_out_Cons login_failed_unit [OF assms] run_conclusion_def cancelled_def
          list_all_iff)
  next
    case False
    with o Cons show ?thesis
      by (simp add: fan_out_Cons login_failed_unit [OF assms] run_conclusion_def)
  qed
qed

section \<open>Claims about change detection\<close>



text \<open>
  Claim C4.  The build matrix lists the watched directories that were matched in the
  order of \<^term>\<open>watched_dirs\<close>, and a permutation of the changed paths gives the same
  matrix.
\<close>

theorem matrix_order:
  assumes "\<forall>p\<in>set ps. newline \<notin> set p" and "mset qs = mset ps"
  shows "build_matrix ps =
           Some (filter (\<lambda>d. \<exists>p\<in>set ps. starts_with (d @ ''/'') p) watched_dirs) \<and>
         build_matrix qs = build_matrix ps"
proof -
  from assms(2) have s: "set qs = set ps" by (rule mset_eq_setD)
  with assms(1) have "\<forall>p\<in>set qs. newline \<notin> set p" by simp
  then show ?thesis using assms(1) s by (simp add: build_matrix_filter)
qed

theorem matrix_order_witness:
  "newline \<notin> set ''src/paymentservice/server.js'' \<and>
   newline \<notin> set ''README.md'' \<and>
   newline \<notin> set ''src/cartservice/main.go'' \<and>
   mset [''src/cartservice/main.go'', ''src/paymentservice/server.js'', ''README.md''] =
     mset [''src/paymentservice/server.js'', ''README.md'', ''src/cartservice/main.go''] \<and>
   build_matrix [''src/paymentservice/server.js'', ''README.md'', ''src/cartservice/main.go''] =
     Some [''src/cartservice'', ''src/paymentservice''] \<and>
   build_matrix [''src/cartservice/main.go'', ''src/paymentservice/server.js'', ''README.md''] =
     Some [''src/cartservice'', ''src/paymentservice'']"
proof -
  have a: "\<forall>p\<in>set [''src/paymentservice/server.js'', ''README.md'', ''src/cartservice/main.go''].
      newline \<notin> set p"
    by (simp add: newline_def)
  have b: "mset [''src/cartservice/main.go'', ''src/paymentservice/server.js'', ''README.md''] =
     mset [''src/paymentservice/server.js'', ''README.md'', ''src/cartservice/main.go'']"
    by simp
  show ?thesis
    using a b matrix_order [OF a b] by (simp add: watched_dirs_def)
qed

section \<open>Claims about one instance of the build job\<close>



text \<open>
  Claim C6.  The build is given exactly two tags, \<open>user/name:latest\<close> and
  \<open>user/name:t\<close>, where \<open>user\<close> is the registry namespace, \<open>name\<close> the last segment
  of the service path and \<open>t\<close> the first seven characters of the head commit; an
  instance that succeeds sets exactly these two references in the registry.  Within one
  namespace the commit tag is the same text for equal service name and head commit.
\<close>

theorem image_tags_format:
  "image_tags env service =
     [docker_username env @ ''/'' @ basename service @ '':latest'',
      docker_username env @ ''/'' @ basename service @ '':'' @ take 7 (github_sha env)] \<and>
   (n \<noteq> [] \<and> CHR ''/'' \<notin> set n \<longrightarrow> basename (d @ ''/'' @ n) = n) \<and>
   (outcome (fst (run_unit env service w)) = Pushed \<longrightarrow>
      (\<exists>digest. images (snd (run_unit env service w)) =
         (images w)(image_latest env service \<mapsto> digest, image_sha env service \<mapsto> digest))) \<and>
   (docker_username env' = docker_username env \<and> basename service' = basename service \<and>
    github_sha env' = github_sha env \<longrightarrow> image_sha env' service' = image_sha env service)"
proof (intro conjI impI)
  show "image_tags env service =
     [docker_username env @ ''/'' @ basename service @ '':latest'',
      docker_username env @ ''/'' @ basename service @ '':'' @ take 7 (github_sha env)]"
    by (simp add: image_tags_def image_latest_def image_sha_def)
next
  assume "n \<noteq> [] \<and> CHR ''/'' \<notin> set n"
  then show "basename (d @ ''/'' @ n) = n" by (intro basename_last_segment) simp_all
next
  assume "outcome (fst (run_unit env service w)) = Pushed"
  then show "\<exists>digest. images (snd (run_unit env service w)) =
         (images w)(image_latest env service \<mapsto> digest, image_sha env service \<mapsto> digest)"
    by (rule pushed_images)
next
  assume "docker_username env' = docker_username env \<and> basename service' = basename service \<and>
    github_sha env' = github_sha env"
  then show "image_sha env' service' = image_sha env service"
    by (simp add: image_sha_def)
qed

theorem image_tags_format_witness:
  "image_tags example_env ''src/frontend'' =
     [''kodenops/frontend:latest'', ''kodenops/frontend:9f8e7d6''] \<and>
   basename ''src/frontend'' = ''frontend'' \<and>
   outcome (fst (run_unit example_env ''src/frontend'' empty_world)) = Pushed \<and>
   (\<exists>digest. images (snd (run_unit example_env ''src/frontend'' empty_world)) =
      [''kodenops/frontend:latest'' \<mapsto> digest, ''kodenops/frontend:9f8e7d6'' \<mapsto> digest]) \<and>
   image_sha (example_env\<lparr>runner_os := ''macOS''\<rparr>) ''lib/frontend'' =
     image_sha example_env ''src/frontend''"
proof -
  have p: "outcome (fst (run_unit example_env ''src/frontend'' empty_world)) = Pushed"
    by (simp add: run_unit_unfold Let_def login_def example_env_def build_and_push_def
        resolve_dockerfile_def)
  have b: "basename ''src/frontend'' = ''frontend''" "basename ''lib/frontend'' = ''frontend''"
    by (simp_all add: basename_def)
  show ?thesis
    using p b image_tags_format [where env = example_env and service = "''src/frontend''"
        and w = empty_world and d = "''src''" and n = "''frontend''"
        and env' = "example_env\<lparr>runner_os := ''macOS''\<rparr>" and service' = "''lib/frontend''"]
    by (simp add: image_latest_def image_sha_def empty_world_def example_env_def)
qed

section \<open>Claims about the run as a whole\<close>

text \<open>
  Claim C5.  When the build matrix is empty the condition of the build job is false:
  the job is skipped, no instance is started, the world is left as it was and the run
  concludes with success.  The matrix is empty in particular when no changed path lies
  under a watched directory, and when the commit before the push and the head commit
  are the same commit.
\<close>

theorem empty_matrix_skips_build:
  "(build_matrix ps = Some [] \<longrightarrow>
      build_job env order (set_matrix (git_output ps)) w =
        (\<lparr>conclusion = Success, units = []\<rparr>, w)) \<and>
   ((\<forall>p\<in>set ps. newline \<notin> set p) \<and>
    (\<forall>p\<in>set ps. \<forall>d\<in>set watched_dirs. \<not> starts_with (d @ ''/'') p) \<longrightarrow>
      build_matrix ps = Some []) \<and>
   (commits (event_before env) = Some t \<and> github_sha env = event_before env \<longrightarrow>
      workflow_run env order commits w = (\<lparr>conclusion = Success, units = []\<rparr>, w))"
proof (intro conjI impI)
  assume "build_matrix ps = Some []"
  then show "build_job env order (set_matrix (git_output ps)) w =
        (\<lparr>conclusion = Success, units = []\<rparr>, w)"
    by (rule build_job_skipped)
next
  assume a: "(\<forall>p\<in>set ps. newline \<notin> set p) \<and>
    (\<forall>p\<in>set ps. \<forall>d\<in>set watched_dirs. \<not> starts_with (d @ ''/'') p)"
  then have "filter (\<lambda>d. \<exists>p\<in>set ps. starts_with (d @ ''/'') p) watched_dirs = []"
    by (auto simp add: filter_empty_conv)
  with a show "build_matrix ps = Some []"
    by (simp add: build_matrix_filter)
next
  assume "commits (event_before env) = Some t \<and> github_sha env = event_before env"
  then have "detect_changes commits (event_before env) (github_sha env) =
               Some (set_matrix (git_output []))"
    by (simp add: detect_changes_def git_diff_same)
  then show "workflow_run env order commits w = (\<lparr>conclusion = Success, units = []\<rparr>, w)"
    using build_job_skipped [OF build_matrix_Nil] by (simp add: workflow_run_def)
qed

theorem empty_matrix_skips_build_witness:
  "newline \<notin> set ''README.md'' \<and>
   \<not> list_ex (\<lambda>d. starts_with (d @ ''/'') ''README.md'') watched_dirs \<and>
   build_matrix [''README.md''] = Some [] \<and>
   build_job example_env id (set_matrix (git_output [''README.md''])) empty_world =
     (\<lparr>conclusion = Success, units = []\<rparr>, empty_world) \<and>
   workflow_run (example_env\<lparr>github_sha := event_before example_env\<rparr>) id
       [event_before example_env \<mapsto> [(''src/frontend/main.go'', 1)]] empty_world =
     (\<lparr>conclusion = Success, units = []\<rparr>, empty_world)"
proof -
  have n: "newline \<notin> set ''README.md''"
    by (simp add: newline_def)
  have u: "\<not> list_ex (\<lambda>d. starts_with (d @ ''/'') ''README.md'') watched_dirs"
    by (simp add: watched_dirs_def)
  have m: "build_matrix [''README.md''] = Some []"
    using n u empty_matrix_skips_build [where ps = "[''README.md'']"]
    by (simp add: list_ex_iff)
  show ?thesis
    using n u m
      empty_matrix_skips_build [where ps = "[''README.md'']" and env = example_env
        and order = id and w = empty_world]
      empty_matrix_skips_build [where env = "example_env\<lparr>github_sha := event_before example_env\<rparr>"
        and commits = "[event_before example_env \<mapsto> [(''src/frontend/main.go'', 1)]]"
        and t = "[(''src/frontend/main.go'', 1)]" and order = id and w = empty_world]
    by simp
qed


text \<open>
  Claim C10.  A push whose changed paths all lie under \<open>release/\<close> passes the path
  filter of the trigger, but no watched directory matches: the matrix is empty, the
  build job is skipped and nothing is built or pushed.
\<close>

theorem release_only_builds_nothing:
  assumes "ps \<noteq> []" and "\<forall>p\<in>set ps. starts_with ''release/'' p"
    and "\<forall>p\<in>set ps. newline \<notin> set p"
  shows "triggered ps \<and> build_matrix ps = Some [] \<and>
         build_job env order (set_matrix (git_output ps)) w =
           (\<lparr>conclusion = Success, units = []\<rparr>, w)"
proof -
  from assms(1) obtain p where p: "p \<in> set ps" by (cases ps) auto
  with assms(2) obtain r where "p = ''release/'' @ r"
    unfolding starts_with_append by blast
  then have "glob_match ''release/**'' p" using glob_release by simp
  moreover have "''release/**'' \<in> set push_paths" by (simp add: push_paths_def)
  ultimately have t: "triggered ps"
    using p unfolding triggered_def list_ex_iff by blast
  have "\<not> starts_with (d @ ''/'') q" if "q \<in> set ps" "d \<in> set watched_dirs" for q d
  proof -
    from that(1) assms(2) obtain r where "q = ''release/'' @ r"
      unfolding starts_with_append by blast
    with that(2) show ?thesis using watched_not_release by simp
  qed
  then have "filter (\<lambda>d. \<exists>p\<in>set ps. starts_with (d @ ''/'') p) watched_dirs = []"
    by (auto simp add: filter_empty_conv)
  with assms(3) have m: "build_matrix ps = Some []"
    by (simp add: build_matrix_filter)
  from t m build_job_skipped [OF m] show ?thesis by simp
qed

theorem release_only_builds_nothing_witness:
  "starts_with ''release/'' ''release/kubernetes-manifests.yaml'' \<and>
   newline \<notin> set ''release/kubernetes-manifests.yaml'' \<and>
   triggered [''release/kubernetes-manifests.yaml''] \<and>
   build_matrix [''release/kubernetes-manifests.yaml''] = Some [] \<and>
   build_job example_env id (set_matrix (git_output [''release/kubernetes-manifests.yaml'']))
       empty_world =
     (\<lparr>conclusion = Success, units = []\<rparr>, empty_world)"
proof -
  have a: "[''release/kubernetes-manifests.yaml''] \<noteq> []"
    by simp
  have b: "\<forall>p\<in>set [''release/kubernetes-manifests.yaml'']. starts_with ''release/'' p"
    by simp
  have c: "\<forall>p\<in>set [''release/kubernetes-manifests.yaml'']. newline \<notin> set p"
    by (simp add: newline_def)
  show ?thesis
    using b c release_only_builds_nothing [OF a b c, of example_env id empty_world]
    by simp
qed

section \<open>Claims about the matrix of instances, the registry and the caches\<close>




text \<open>
  Claim C9, as amended.  The login at the registry is a step of every instance, after
  the checkout, the Buildx setup and the restoring of the cache.  With credentials that
  are absent or rejected, an instance that runs fails at that step: its build step is
  not run, so nothing is built or pushed and no cache is saved, in any instance of the
  matrix, and the run concludes with failure.
\<close>

theorem login_failure_in_each_unit:
  assumes "\<not> login env"
  shows "steps_run (fst (run_unit env s w)) = [Checkout, SetupBuildx, CacheLayers, Login] \<and>
         outcome (fst (run_unit env s w)) = Failed LoginFailed \<and>
         snd (run_unit env s w) = w \<and>
         snd (fan_out ff env us w) = w \<and>
         list_all (\<lambda>u. BuildAndPush \<notin> set (steps_run (snd u))) (fst (fan_out ff env us w)) \<and>
         (us \<noteq> [] \<longrightarrow> run_conclusion (fst (fan_out ff env us w)) = Failure)"
  using login_failed_fan_out [OF assms, of ff us w]
  by (simp add: login_failed_unit [OF assms])

theorem login_failure_in_each_unit_witness:
  "\<not> login (example_env\<lparr>cicd_dockerhub := []\<rparr>) \<and>
   steps_run (fst (run_unit (example_env\<lparr>cicd_dockerhub := []\<rparr>) ''src/frontend'' cached_world)) =
     [Checkout, SetupBuildx, CacheLayers, Login] \<and>
   outcome (fst (run_unit (example_env\<lparr>cicd_dockerhub := []\<rparr>) ''src/frontend'' cached_world)) =
     Failed LoginFailed \<and>
   snd (fan_out True (example_env\<lparr>cicd_dockerhub := []\<rparr>)
          [''src/frontend'', ''src/cartservice''] cached_world) = cached_world \<and>
   run_conclusion (fst (fan_out True (example_env\<lparr>cicd_dockerhub := []\<rparr>)
          [''src/frontend'', ''src/cartservice''] cached_world)) = Failure"
proof -
  have l: "\<not> login (example_env\<lparr>cicd_dockerhub := []\<rparr>)"
    by (simp add: login_def)
  show ?thesis
    using l login_failure_in_each_unit [OF l, of "''src/frontend''" cached_world True
        "[''src/frontend'', ''src/cartservice'']"]
    by simp
qed

text \<open>
  The claim as the specification states it fails: with the token absent, the instance for
  \<open>frontend\<close> is started all the same and restores its layer cache before the login
  is tried.
\<close>

theorem units_spawned_before_login_counterexample:
  "\<not> login (example_env\<lparr>cicd_dockerhub := []\<rparr>) \<and>
   build_job (example_env\<lparr>cicd_dockerhub := []\<rparr>) id
       (set_matrix (git_output [''src/frontend/main.go''])) cached_world =
     (\<lparr>conclusion = Failure,
       units =
         [(''src/frontend'',
           \<lparr>outcome = Failed LoginFailed,
            steps_run = [Checkout, SetupBuildx, CacheLayers, Login],
            final_dirs = [cache_path \<mapsto> 5]\<rparr>)]\<rparr>,
      cached_world)"
proof -
  have n: "\<forall>p\<in>set [''src/frontend/main.go'']. newline \<notin> set p"
    by (simp add: newline_def)
  have m: "filter (\<lambda>d. \<exists>p\<in>set [''src/frontend/main.go'']. starts_with (d @ ''/'') p) watched_dirs =
           [''src/frontend'']"
    by (simp add: watched_dirs_def)
  have l: "\<not> login (example_env\<lparr>cicd_dockerhub := []\<rparr>)"
    by (simp add: login_def)
  have c: "cache_dirs (cache_layers (example_env\<lparr>cicd_dockerhub := []\<rparr>) ''src/frontend''
             \<lparr>cache_dirs = Map.empty, restored = None, world = cached_world\<rparr>) =
           [cache_path \<mapsto> 5]"
    by (simp add: cache_layers_def restore_cache_def cache_restore_keys_def cache_key_def
        cached_world_def example_env_def)
  have o: "unit_outcome (example_env\<lparr>cicd_dockerhub := []\<rparr>) ''src/frontend'' = Failed LoginFailed"
    using l by (simp add: unit_outcome_def login_failed_unit)
  show ?thesis
    unfolding build_job_started [OF n m]
    using l o c
    by (simp add: fan_out_Cons login_failed_unit [OF l] run_conclusion_def)
qed

text \<open>
  Claim C7, as amended.  The commit tag is pushed like the tag \<open>latest\<close>: when the
  build command succeeds, both references name the new image whatever the registry held
  under them, and the instance succeeds.  The workflow asks nothing about the tag before
  the push, and no failure stands for a conflict.
\<close>

theorem push_moves_commit_tag:
  assumes "login env" and "resolve_dockerfile (files env) s = Inr (df, ctx)"
    and "docker_build env df ctx = Some digest"
  shows "outcome (fst (run_unit env s w)) = Pushed \<and>
         images (snd (run_unit env s w)) (image_sha env s) = Some digest \<and>
         images (snd (run_unit env s w)) (image_latest env s) = Some digest"
  by (simp add: pushed_unit [OF assms] Let_def)

theorem push_moves_commit_tag_witness:
  "login example_env \<and>
   resolve_dockerfile (files example_env) ''src/frontend'' =
     Inr (''src/frontend/Dockerfile'', ''src/frontend'') \<and>
   docker_build example_env ''src/frontend/Dockerfile'' ''src/frontend'' = Some 12 \<and>
   outcome (fst (run_unit example_env ''src/frontend'' tagged_world)) = Pushed \<and>
   images (snd (run_unit example_env ''src/frontend'' tagged_world))
     (image_sha example_env ''src/frontend'') = Some 12 \<and>
   images (snd (run_unit example_env ''src/frontend'' tagged_world))
     (image_latest example_env ''src/frontend'') = Some 12"
proof -
  have l: "login example_env"
    by (simp add: login_def example_env_def)
  have r: "resolve_dockerfile (files example_env) ''src/frontend'' =
     Inr (''src/frontend/Dockerfile'', ''src/frontend'')"
    by (simp add: resolve_dockerfile_def example_env_def)
  have d: "docker_build example_env ''src/frontend/Dockerfile'' ''src/frontend'' = Some 12"
    by (simp add: example_env_def)
  show ?thesis
    using l r d push_moves_commit_tag [OF l r d, of tagged_world] by simp
qed

text \<open>
  The claim as the specification states it fails: the commit tag named the image 999, the
  push moves it to the image 12, and the instance succeeds.
\<close>

theorem commit_tag_overwritten_counterexample:
  "image_sha example_env ''src/frontend'' = ''kodenops/frontend:9f8e7d6'' \<and>
   images tagged_world ''kodenops/frontend:9f8e7d6'' = Some 999 \<and>
   outcome (fst (run_unit example_env ''src/frontend'' tagged_world)) = Pushed \<and>
   images (snd (run_unit example_env ''src/frontend'' tagged_world))
     ''kodenops/frontend:9f8e7d6'' = Some 12"
proof -
  have l: "login example_env"
    by (simp add: login_def example_env_def)
  have r: "resolve_dockerfile (files example_env) ''src/frontend'' =
     Inr (''src/frontend/Dockerfile'', ''src/frontend'')"
    by (simp add: resolve_dockerfile_def example_env_def)
  have d: "docker_build example_env ''src/frontend/Dockerfile'' ''src/frontend'' = Some 12"
    by (simp add: example_env_def)
  have t: "image_sha example_env ''src/frontend'' = ''kodenops/frontend:9f8e7d6''"
    by (simp add: image_sha_def basename_def example_env_def)
  show ?thesis
    using t by (simp add: pushed_unit [OF l r d] Let_def tagged_world_def)
qed

text \<open>
  Claim C8.  The build imports its cache from \<^term>\<open>cache_from\<close> and exports it to
  \<^term>\<open>cache_to\<close>, so the imported directory is never written: after any instance,
  failed or not, it holds what the cache step restored.  But no step moves the exported
  cache to the directory that the cache step saves.  For \<open>frontend\<close> with a cache
  restored from an earlier commit, the new cache 13 stays in the staging directory and
  the old content 5 is saved under the new key; with no earlier cache nothing is saved
  at all, so the next run starts without a cache again.
\<close>

theorem staging_cache_not_promoted:
  "final_dirs (fst (run_unit env s w)) cache_from =
     map_option snd (restore_cache (caches w) (cache_key env s) (cache_restore_keys env s)) \<and>
   final_dirs (fst (run_unit example_env ''src/frontend'' cached_world)) cache_from = Some 5 \<and>
   final_dirs (fst (run_unit example_env ''src/frontend'' cached_world)) cache_to = Some 13 \<and>
   caches (snd (run_unit example_env ''src/frontend'' cached_world)) =
     [(''Linux-buildx-src/frontend-9f8e7d6c5b4a39281706f5e4d3c2b1a098765432'', 5),
      (''Linux-buildx-src/frontend-0a1b2c3d4e5f60718293a4b5c6d7e8f901234567'', 5)] \<and>
   outcome (fst (run_unit example_env ''src/frontend'' empty_world)) = Pushed \<and>
   caches (snd (run_unit example_env ''src/frontend'' empty_world)) = []"
proof -
  have l: "login example_env"
    by (simp add: login_def example_env_def)
  have r: "resolve_dockerfile (files example_env) ''src/frontend'' =
     Inr (''src/frontend/Dockerfile'', ''src/frontend'')"
    by (simp add: resolve_dockerfile_def example_env_def)
  have d: "docker_build example_env ''src/frontend/Dockerfile'' ''src/frontend'' = Some 12"
    by (simp add: example_env_def)
  have c: "cache_layers example_env ''src/frontend''
             \<lparr>cache_dirs = Map.empty, restored = None, world = cached_world\<rparr> =
           \<lparr>cache_dirs = [cache_path \<mapsto> 5],
            restored = Some ''Linux-buildx-src/frontend-0a1b2c3d4e5f60718293a4b5c6d7e8f901234567'',
            world = cached_world\<rparr>"
    by (simp add: cache_layers_def restore_cache_def cache_restore_keys_def cache_key_def
        cached_world_def example_env_def)
  have e: "cache_layers example_env ''src/frontend''
             \<lparr>cache_dirs = Map.empty, restored = None, world = empty_world\<rparr> =
           \<lparr>cache_dirs = Map.empty, restored = None, world = empty_world\<rparr>"
    by (simp add: cache_layers_def restore_cache_def cache_restore_keys_def empty_world_def)
  have k: "cache_key example_env ''src/frontend'' =
      ''Linux-buildx-src/frontend-9f8e7d6c5b4a39281706f5e4d3c2b1a098765432''"
    by (simp add: cache_key_def example_env_def)
  have x: "cache_export example_env ''src/frontend'' v = 13" for v
    by (simp add: example_env_def)
  have cw: "caches cached_world =
      [(''Linux-buildx-src/frontend-0a1b2c3d4e5f60718293a4b5c6d7e8f901234567'', 5)]"
    by (simp add: cached_world_def)
  have ew: "caches empty_world = []"
    by (simp add: empty_world_def)
  show ?thesis
    using read_cache_kept [of env s w]
    by (simp add: pushed_unit [OF l r d] Let_def c e k x save_cache_def
        cache_from_def cache_to_def cache_path_def cw ew)
qed

end
